theory Spec2Isabelle
  imports Complex_Main "HOL-Library.Sublist"
begin

section \<open>Beat-grid analysis: \<^verbatim>\<open>analyze_beatgrid.py\<close> and \<^verbatim>\<open>analyze_beatgrid_v2.py\<close>\<close>

text \<open>
  The two scripts share one skeleton: decode the input to a WAV file, run the beat
  tracker, derive the grid offset, (variant 2) the downbeats and a confidence value,
  print the record. The names below are those of the scripts; a leading underscore is
  dropped and the functions of the second script that clash with the first carry the
  suffix \<open>_v2\<close>.

  Numbers. Python's \<^verbatim>\<open>float\<close> is modelled by \<^typ>\<open>real\<close>: every operation is the exact
  one, so rounding, infinities and NaN are outside the model. Python's \<^verbatim>\<open>int\<close> is
  \<^typ>\<open>int\<close>, list lengths and indices are \<^typ>\<open>nat\<close>. A \<^verbatim>\<open>str\<close> is a \<^typ>\<open>string\<close>,
  read as its UTF-8 bytes, and so is a \<^verbatim>\<open>bytes\<close> object.
\<close>

subsection \<open>Exceptions\<close>

text \<open>
  The subclasses of \<^verbatim>\<open>Exception\<close> that the scripts can meet, each with its message.
  \<open>EngineError\<close> stands for whatever the audio library raises while loading or analysing.
\<close>

datatype exn =
    RuntimeError string
  | OSError string
  | ZeroDivisionError string
  | EngineError string

fun str_exn :: "exn \<Rightarrow> string" where
  "str_exn (RuntimeError m) = m"
| "str_exn (OSError m) = m"
| "str_exn (ZeroDivisionError m) = m"
| "str_exn (EngineError m) = m"

subsection \<open>Float operations of the language and of numpy\<close>

text \<open>C's \<^verbatim>\<open>fmod\<close>: the remainder of the quotient truncated towards zero.\<close>

definition trunc :: "real \<Rightarrow> int" where
  "trunc r = (if 0 \<le> r then \<lfloor>r\<rfloor> else \<lceil>r\<rceil>)"

definition c_fmod :: "real \<Rightarrow> real \<Rightarrow> real" where
  "c_fmod x y = x - y * of_int (trunc (x / y))"

text \<open>
  The \<^verbatim>\<open>%\<close> of two floats (CPython's \<^verbatim>\<open>float_rem\<close>): a zero divisor raises, otherwise
  \<^verbatim>\<open>fmod\<close> is taken and the divisor added once when the remainder is non-zero and its
  sign differs from the divisor's.
\<close>

definition float_rem :: "real \<Rightarrow> real \<Rightarrow> exn + real" where
  "float_rem vx wx =
     (if wx = 0 then Inl (ZeroDivisionError ''float modulo'')
      else let m = c_fmod vx wx
           in if m \<noteq> 0 \<and> ((wx < 0) \<noteq> (m < 0)) then Inr (m + wx) else Inr m)"

text \<open>\<^verbatim>\<open>np.round(x, 1)\<close>: scale by ten, round half to even, scale back.\<close>

definition rint :: "real \<Rightarrow> real" where
  "rint x =
     (let f = \<lfloor>x\<rfloor>; d = x - of_int f
      in of_int (if d < 1 / 2 then f else if 1 / 2 < d then f + 1
                 else if even f then f else f + 1))"

definition np_round1 :: "real \<Rightarrow> real" where
  "np_round1 x = rint (x * 10) / 10"

text \<open>\<^verbatim>\<open>np.diff\<close>, \<^verbatim>\<open>np.mean\<close>, \<^verbatim>\<open>np.std\<close> (population form) and \<^verbatim>\<open>np.clip\<close>.\<close>

fun np_diff :: "real list \<Rightarrow> real list" where
  "np_diff (x # y # xs) = (y - x) # np_diff (y # xs)"
| "np_diff _ = []"

definition np_mean :: "real list \<Rightarrow> real" where
  "np_mean xs = sum_list xs / real (length xs)"

definition np_std :: "real list \<Rightarrow> real" where
  "np_std xs = sqrt (np_mean (map (\<lambda>x. (x - np_mean xs)\<^sup>2) xs))"

definition np_clip :: "real \<Rightarrow> real \<Rightarrow> real \<Rightarrow> real" where
  "np_clip a lo hi = min (max a lo) hi"

subsection \<open>Grid phase estimator\<close>

text \<open>
  Lines 91 to 99 of \<^verbatim>\<open>analyze\<close>. The test \<^verbatim>\<open>bpm and bpm > 0 and beat_times\<close> reads the
  truth value of an optional float (neither \<^verbatim>\<open>None\<close> nor zero) and of a list (non-empty).
\<close>

definition grid_offset :: "real option \<Rightarrow> real list \<Rightarrow> exn + real" where
  "grid_offset bpm beat_times =
     (case bpm of
        None \<Rightarrow> Inr 0
      | Some b \<Rightarrow>
          if b \<noteq> 0 \<and> b > 0 \<and> beat_times \<noteq> [] then
            (let beat_period = 60 / b;
                 raw = hd beat_times
             in case float_rem raw beat_period of
                  Inl e \<Rightarrow> Inl e
                | Inr offset \<Rightarrow> if \<bar>offset\<bar> < 2 / 100 then Inr 0 else Inr offset)
          else Inr 0)"

text \<open>Lines 95 to 99 of \<^verbatim>\<open>analyze_v2\<close>: the same computation written as one expression.\<close>

definition grid_offset_v2 :: "real option \<Rightarrow> real list \<Rightarrow> exn + real" where
  "grid_offset_v2 bpm beat_times =
     (case bpm of
        None \<Rightarrow> Inr 0
      | Some b \<Rightarrow>
          if b \<noteq> 0 \<and> b > 0 \<and> beat_times \<noteq> [] then
            (let period = 60 / b
             in case float_rem (hd beat_times) period of
                  Inl e \<Rightarrow> Inl e
                | Inr off \<Rightarrow> Inr (if \<bar>off\<bar> < 2 / 100 then 0 else off))
          else Inr 0)"

text \<open>The mathematical remainder the specification speaks of: the one in \<open>[0, p)\<close>.\<close>

definition spec_mod :: "real \<Rightarrow> real \<Rightarrow> real" where
  "spec_mod x p = x - p * of_int \<lfloor>x / p\<rfloor>"

subsection \<open>Stability scorer\<close>

text \<open>Lines 101 to 108 of both scripts, word for word the same.\<close>

definition stability :: "real list \<Rightarrow> real option" where
  "stability beat_times =
     (if length beat_times \<ge> 3 then
        (let diffs = np_diff beat_times
         in if list_all (\<lambda>d. d > 0) diffs then
              Some (np_clip (1 - np_std diffs / (np_mean diffs + 1 / 1000000)) 0 1)
            else None)
      else None)"

subsection \<open>Downbeat inferrer (second script)\<close>

text \<open>
  \<^verbatim>\<open>range(i, n, step)\<close> for a positive step, as the loop it is. Python raises
  \<^verbatim>\<open>ValueError\<close> for a zero step; \<^verbatim>\<open>_infer_downbeats_from_beats\<close> returns before it
  could call it so, and the function below is empty there.
\<close>

function range_step :: "nat \<Rightarrow> nat \<Rightarrow> nat \<Rightarrow> nat list" where
  "range_step i n step = (if 0 < step \<and> i < n then i # range_step (i + step) n step else [])"
  by pat_completeness auto
termination
  by (relation "measure (\<lambda>(i, n, step). n - i)") auto

declare range_step.simps [simp del]

definition infer_downbeats_from_beats :: "real list \<Rightarrow> int \<Rightarrow> real list" where
  "infer_downbeats_from_beats beat_times beats_per_bar =
     (if beat_times = [] \<or> beats_per_bar < 1 then []
      else map (\<lambda>i. beat_times ! i)
             (range_step 0 (length beat_times) (nat beats_per_bar)))"

subsection \<open>Paths and text\<close>

text \<open>
  \<^verbatim>\<open>str.rfind\<close> of one character (\<open>-1\<close> when absent) and \<^verbatim>\<open>os.path.splitext\<close> in its
  POSIX form: the extension starts at the last dot of the last path component, unless
  only dots precede it there.
\<close>

definition rfind :: "string \<Rightarrow> char \<Rightarrow> int" where
  "rfind p c =
     (case find (\<lambda>i. p ! i = c) (rev [0..<length p]) of
        None \<Rightarrow> - 1
      | Some i \<Rightarrow> int i)"

definition splitext :: "string \<Rightarrow> string \<times> string" where
  "splitext p =
     (let sepIndex = rfind p (CHR ''/'');
          dotIndex = rfind p (CHR ''.'')
      in if dotIndex > sepIndex
            \<and> list_ex (\<lambda>filenameIndex. p ! filenameIndex \<noteq> CHR ''.'')
                 [nat (sepIndex + 1)..<nat dotIndex]
         then (take (nat dotIndex) p, drop (nat dotIndex) p)
         else (p, []))"

text \<open>
  \<^verbatim>\<open>str.lower\<close>: the ASCII capitals become small letters. Bytes of other characters stay
  as they are; no character outside ASCII has a lower case among the characters of
  \<open>.wav\<close>, so the comparison of \<^verbatim>\<open>_decode_to_wav\<close> is decided as in Python.
\<close>

definition lower_char :: "char \<Rightarrow> char" where
  "lower_char c =
     (let n = (of_char c :: nat) in if 65 \<le> n \<and> n \<le> 90 then char_of (n + 32) else c)"

definition lower :: "string \<Rightarrow> string" where
  "lower s = map lower_char s"

text \<open>
  \<^verbatim>\<open>bytes.decode('utf-8', errors='ignore')\<close>, the text again as UTF-8 bytes: well-formed
  sequences are kept; an ill-formed one loses the bytes the decoder reports (the lead
  byte alone, or the lead byte with the continuation bytes accepted so far) and decoding
  goes on behind them; a sequence cut off by the end of the input is dropped.
\<close>

definition is_cont :: "char \<Rightarrow> bool" where
  "is_cont c = (128 \<le> (of_char c :: nat) \<and> (of_char c :: nat) < 192)"

fun utf8_ignore :: "string \<Rightarrow> string" where
  "utf8_ignore [] = []"
| "utf8_ignore (c # cs) =
     (let ch = (of_char c :: nat) in
      if ch < 128 then c # utf8_ignore cs
      else if ch < 194 then utf8_ignore cs
      else if ch < 224 then
        (case cs of
           [] \<Rightarrow> []
         | c2 # r2 \<Rightarrow>
             if is_cont c2 then c # c2 # utf8_ignore r2 else utf8_ignore cs)
      else if ch < 240 then
        (case cs of
           [] \<Rightarrow> []
         | c2 # r2 \<Rightarrow>
             if \<not> is_cont c2
                \<or> (if (of_char c2 :: nat) < 160 then ch = 224 else ch = 237)
             then utf8_ignore cs
             else (case r2 of
                     [] \<Rightarrow> []
                   | c3 # r3 \<Rightarrow>
                       if is_cont c3 then c # c2 # c3 # utf8_ignore r3
                       else utf8_ignore r2))
      else if ch < 245 then
        (case cs of
           [] \<Rightarrow> []
         | c2 # r2 \<Rightarrow>
             if \<not> is_cont c2
                \<or> (if (of_char c2 :: nat) < 144 then ch = 240 else ch = 244)
             then utf8_ignore cs
             else (case r2 of
                     [] \<Rightarrow> []
                   | c3 # r3 \<Rightarrow>
                       if \<not> is_cont c3 then utf8_ignore r2
                       else (case r3 of
                               [] \<Rightarrow> []
                             | c4 # r4 \<Rightarrow>
                                 if is_cont c4 then c # c2 # c3 # c4 # utf8_ignore r4
                                 else utf8_ignore r3)))
      else utf8_ignore cs)"

subsection \<open>The world outside the process\<close>

text \<open>
  What a run reads and changes outside itself. \<open>files\<close> are the paths that exist on disk.
  \<open>tmp_names\<close> are the names \<^verbatim>\<open>tempfile.mkstemp\<close> would try, in order. \<open>run_process\<close>
  tells how a command line ends, \<open>calls\<close> records the command lines started. \<open>beat_track\<close>
  and \<open>beat_track_v2\<close> stand for the audio library: loading the WAV file, the onset
  envelope of the script in question, tempo and beat tracking, and the conversion of the
  beat frames to a list of seconds (lines 75 to 85, and 72 to 85); they yield the tempo,
  possibly \<^verbatim>\<open>None\<close>, and the beat times, or raise.
\<close>

datatype run_result =
    Exited int string    \<comment> \<open>the process ran: return code and captured stderr\<close>
  | NotStarted exn       \<comment> \<open>the executable could not be started: an \<^verbatim>\<open>OSError\<close>\<close>

record world =
  files :: "string set"
  environ :: "string \<rightharpoonup> string"
  tmp_names :: "string list"
  run_process :: "string list \<Rightarrow> run_result"
  calls :: "string list list"
  beat_track :: "string \<Rightarrow> exn + (real option \<times> real list)"
  beat_track_v2 :: "string \<Rightarrow> exn + (real option \<times> real list)"

text \<open>
  \<^verbatim>\<open>tempfile.mkstemp\<close> creates the first candidate that does not exist yet, and raises
  when every candidate exists. The descriptor it returns is closed at once by the
  scripts and is not modelled.
\<close>

definition mkstemp :: "world \<Rightarrow> world \<times> (exn + string)" where
  "mkstemp w =
     (case find (\<lambda>p. p \<notin> files w) (tmp_names w) of
        None \<Rightarrow> (w, Inl (OSError ''No usable temporary file name found''))
      | Some p \<Rightarrow> (w\<lparr>files := insert p (files w)\<rparr>, Inr p))"

text \<open>
  \<^verbatim>\<open>os.remove\<close>: the path is gone afterwards; a missing path raises. Removing a file
  that exists is taken to succeed.
\<close>

definition os_remove :: "world \<Rightarrow> string \<Rightarrow> world \<times> (exn + unit)" where
  "os_remove w p =
     (if p \<in> files w then (w\<lparr>files := files w - {p}\<rparr>, Inr ())
      else (w, Inl (OSError ''No such file or directory'')))"

text \<open>
  \<^verbatim>\<open>subprocess.run(cmd, stdout=PIPE, stderr=PIPE, check=True)\<close>: the command line is
  started and waited for. With \<^verbatim>\<open>check=True\<close> a non-zero return code becomes a
  \<^verbatim>\<open>CalledProcessError\<close> carrying the captured stderr; the callers below tell the two
  apart by the return code.
\<close>

definition subprocess_run :: "world \<Rightarrow> string list \<Rightarrow> world \<times> run_result" where
  "subprocess_run w cmd = (w\<lparr>calls := calls w @ [cmd]\<rparr>, run_process w cmd)"

subsection \<open>Audio normalizer\<close>

text \<open>
  \<^verbatim>\<open>_decode_to_wav\<close>. The two scripts differ in the text of the error message only, which
  is the first argument here. The handler \<^verbatim>\<open>except subprocess.CalledProcessError\<close> is the
  branch of a non-zero return code; an exception raised when the executable cannot be
  started matches no handler and leaves the function as it is. The removal inside the
  handler ignores its own failure (\<^verbatim>\<open>except Exception: pass\<close>).
\<close>

definition decode_with :: "string \<Rightarrow> world \<Rightarrow> string \<Rightarrow> world \<times> (exn + string \<times> bool)" where
  "decode_with msg w input_path =
     (let ext = lower (snd (splitext input_path))
      in if ext = ''.wav'' then (w, Inr (input_path, False))
         else
           (let ffmpeg_bin = (case environ w ''FFMPEG'' of None \<Rightarrow> ''ffmpeg'' | Some b \<Rightarrow> b)
            in case mkstemp w of
                 (w1, Inl e) \<Rightarrow> (w1, Inl e)
               | (w1, Inr tmp_path) \<Rightarrow>
                   (let cmd = [ffmpeg_bin, ''-y'', ''-i'', input_path, ''-ac'', ''1'',
                               ''-ar'', ''44100'', ''-f'', ''wav'', tmp_path]
                    in case subprocess_run w1 cmd of
                         (w2, Exited returncode err) \<Rightarrow>
                           if returncode = 0 then (w2, Inr (tmp_path, True))
                           else (fst (os_remove w2 tmp_path),
                                 Inl (RuntimeError (msg @ utf8_ignore err)))
                       | (w2, NotStarted e) \<Rightarrow> (w2, Inl e))))"

definition decode_to_wav :: "world \<Rightarrow> string \<Rightarrow> world \<times> (exn + string \<times> bool)" where
  "decode_to_wav = decode_with ''ffmpeg failed to decode input: ''"

definition decode_to_wav_v2 :: "world \<Rightarrow> string \<Rightarrow> world \<times> (exn + string \<times> bool)" where
  "decode_to_wav_v2 = decode_with ''ffmpeg decode failed: ''"

text \<open>
  The command line \<^verbatim>\<open>_decode_to_wav\<close> builds for an input and an output path, named for
  use in the statements below.
\<close>

definition ffmpeg_cmd :: "world \<Rightarrow> string \<Rightarrow> string \<Rightarrow> string list" where
  "ffmpeg_cmd w input_path tmp_path =
     [case environ w ''FFMPEG'' of None \<Rightarrow> ''ffmpeg'' | Some b \<Rightarrow> b,
      ''-y'', ''-i'', input_path, ''-ac'', ''1'', ''-ar'', ''44100'', ''-f'', ''wav'', tmp_path]"

subsection \<open>Result assembler\<close>

text \<open>
  The result dictionary. \<open>downbeatTimesSec\<close> is \<open>None\<close> where the key is absent (first
  script).
\<close>

record beatgrid =
  bpm :: "real option"
  gridOffsetSec :: real
  beatsPerBar :: int
  beatTimesSec :: "real list"
  downbeatTimesSec :: "real list option"
  confidence :: "real option"
  analyzer :: string

text \<open>Lines 87 to 118 of \<^verbatim>\<open>analyze\<close>: everything between the beat times and \<^verbatim>\<open>return\<close>.\<close>

definition assemble :: "real option \<Rightarrow> real list \<Rightarrow> exn + beatgrid" where
  "assemble tempo beat_times =
     (let bpm = map_option np_round1 tempo
      in case grid_offset bpm beat_times of
           Inl e \<Rightarrow> Inl e
         | Inr offset \<Rightarrow>
             (let stability = stability beat_times
              in Inr \<lparr>bpm = bpm, gridOffsetSec = offset, beatsPerBar = 4,
                      beatTimesSec = beat_times, downbeatTimesSec = None,
                      confidence = stability, analyzer = ''librosa_beat_track_v1''\<rparr>))"

text \<open>Lines 87 to 118 of \<^verbatim>\<open>analyze_v2\<close>.\<close>

definition assemble_v2 :: "real option \<Rightarrow> real list \<Rightarrow> exn + beatgrid" where
  "assemble_v2 tempo beat_times =
     (let bpm = map_option np_round1 tempo;
          beats_per_bar = 4;
          downbeat_times = infer_downbeats_from_beats beat_times beats_per_bar
      in case grid_offset_v2 bpm beat_times of
           Inl e \<Rightarrow> Inl e
         | Inr offset \<Rightarrow>
             (let confidence = stability beat_times
              in Inr \<lparr>bpm = bpm, gridOffsetSec = offset, beatsPerBar = beats_per_bar,
                      beatTimesSec = beat_times, downbeatTimesSec = Some downbeat_times,
                      confidence = confidence, analyzer = ''librosa_v2_beats_downbeats''\<rparr>))"

subsection \<open>One analysis\<close>

text \<open>
  \<^verbatim>\<open>analyze\<close> and \<^verbatim>\<open>analyze_v2\<close>. The call of \<^verbatim>\<open>_decode_to_wav\<close> stands before the
  \<^verbatim>\<open>try\<close>: when it raises, the \<^verbatim>\<open>finally\<close> block does not run. Inside the \<^verbatim>\<open>try\<close>, the
  block runs on return and on any exception, and removes the file when \<^verbatim>\<open>should_delete\<close>
  is set, ignoring a failure of the removal.
\<close>

definition analyze :: "world \<Rightarrow> string \<Rightarrow> world \<times> (exn + beatgrid)" where
  "analyze w audio_path =
     (case decode_to_wav w audio_path of
        (w1, Inl e) \<Rightarrow> (w1, Inl e)
      | (w1, Inr (wav_path, should_delete)) \<Rightarrow>
          (let result = (case beat_track w1 wav_path of
                           Inl e \<Rightarrow> Inl e
                         | Inr (tempo, beat_times) \<Rightarrow> assemble tempo beat_times);
               w2 = (if should_delete then fst (os_remove w1 wav_path) else w1)
           in (w2, result)))"

definition analyze_v2 :: "world \<Rightarrow> string \<Rightarrow> world \<times> (exn + beatgrid)" where
  "analyze_v2 w audio_path =
     (case decode_to_wav_v2 w audio_path of
        (w1, Inl e) \<Rightarrow> (w1, Inl e)
      | (w1, Inr (wav_path, should_delete)) \<Rightarrow>
          (let result = (case beat_track_v2 w1 wav_path of
                           Inl e \<Rightarrow> Inl e
                         | Inr (tempo, beat_times) \<Rightarrow> assemble_v2 tempo beat_times);
               w2 = (if should_delete then fst (os_remove w1 wav_path) else w1)
           in (w2, result)))"

subsection \<open>The command-line boundary\<close>

text \<open>
  \<^verbatim>\<open>json.dumps\<close> is kept as the JSON value it serialises; each stream is the list of
  values written to it. \<open>exit_code\<close> is 0 when \<^verbatim>\<open>main\<close> returns and the argument of
  \<^verbatim>\<open>sys.exit\<close> otherwise.
\<close>

datatype json =
    JNull
  | JNum real
  | JInt int
  | JStr string
  | JArr "json list"
  | JObj "(string \<times> json) list"

record process =
  stdout :: "json list"
  stderr :: "json list"
  exit_code :: int

definition json_opt :: "real option \<Rightarrow> json" where
  "json_opt x = (case x of None \<Rightarrow> JNull | Some r \<Rightarrow> JNum r)"

definition json_of_grid :: "beatgrid \<Rightarrow> json" where
  "json_of_grid g =
     JObj ([(''bpm'', json_opt (bpm g)),
            (''gridOffsetSec'', JNum (gridOffsetSec g)),
            (''beatsPerBar'', JInt (beatsPerBar g)),
            (''beatTimesSec'', JArr (map JNum (beatTimesSec g)))]
           @ (case downbeatTimesSec g of
                None \<Rightarrow> []
              | Some ds \<Rightarrow> [(''downbeatTimesSec'', JArr (map JNum ds))])
           @ [(''confidence'', json_opt (confidence g)),
              (''analyzer'', JStr (analyzer g))])"

definition json_of_error :: "exn \<Rightarrow> json" where
  "json_of_error e = JObj [(''error'', JStr (str_exn e))]"

text \<open>\<^verbatim>\<open>main\<close> of both scripts, after the arguments are parsed.\<close>

definition main :: "world \<Rightarrow> string \<Rightarrow> world \<times> process" where
  "main w path =
     (case analyze w path of
        (w1, Inr result) \<Rightarrow>
          (w1, \<lparr>stdout = [json_of_grid result], stderr = [], exit_code = 0\<rparr>)
      | (w1, Inl e) \<Rightarrow>
          (w1, \<lparr>stdout = [], stderr = [json_of_error e], exit_code = 1\<rparr>))"

definition main_v2 :: "world \<Rightarrow> string \<Rightarrow> world \<times> process" where
  "main_v2 w path =
     (case analyze_v2 w path of
        (w1, Inr result) \<Rightarrow>
          (w1, \<lparr>stdout = [json_of_grid result], stderr = [], exit_code = 0\<rparr>)
      | (w1, Inl e) \<Rightarrow>
          (w1, \<lparr>stdout = [], stderr = [json_of_error e], exit_code = 1\<rparr>))"

subsection \<open>Example worlds\<close>

text \<open>
  Concrete surroundings on which the definitions are evaluated: a WAV file and an MP3
  file on disk and one candidate name for the temporary file. The decoder succeeds in
  the first world, exits with status 1 in the second and cannot be started in the
  third; in the fourth the audio library raises.
\<close>

definition example_track :: "string \<Rightarrow> exn + (real option \<times> real list)" where
  "example_track p = Inr (Some 120, [1 / 2, 1, 3 / 2, 2])"

definition world_ok :: world where
  "world_ok =
     \<lparr>files = {''/music/a.WAV'', ''/music/b.mp3''},
      environ = Map.empty,
      tmp_names = [''/tmp/tmp1.wav''],
      run_process = (\<lambda>cmd. Exited 0 []),
      calls = [],
      beat_track = example_track,
      beat_track_v2 = example_track\<rparr>"

definition world_decoder_fails :: world where
  "world_decoder_fails =
     world_ok\<lparr>run_process := (\<lambda>cmd. Exited 1 ''b.mp3: Invalid data found'')\<rparr>"

definition world_decoder_missing :: world where
  "world_decoder_missing =
     world_ok\<lparr>run_process :=
       (\<lambda>cmd. NotStarted (OSError ''[Errno 2] No such file or directory: ffmpeg''))\<rparr>"

definition world_engine_fails :: world where
  "world_engine_fails =
     world_ok\<lparr>beat_track := (\<lambda>p. Inl (EngineError ''could not read audio'')),
              beat_track_v2 := (\<lambda>p. Inl (EngineError ''could not read audio''))\<rparr>"

section \<open>Properties\<close>

subsection \<open>The float remainder\<close>

lemma spec_mod_range:
  assumes "0 < p"
  shows "0 \<le> spec_mod x p" and "spec_mod x p < p"
proof -
  have lo: "of_int \<lfloor>x / p\<rfloor> * p \<le> x"
    using assms by (rule floor_divide_lower)
  have hi: "x < (of_int \<lfloor>x / p\<rfloor> + 1) * p"
    using assms by (rule floor_divide_upper)
  show "0 \<le> spec_mod x p"
    using lo by (simp add: spec_mod_def mult.commute)
  show "spec_mod x p < p"
    using hi by (simp add: spec_mod_def algebra_simps)
qed

lemma float_rem_pos:
  assumes "0 < wx"
  shows "float_rem vx wx = Inr (spec_mod vx wx)"
proof (cases "0 \<le> vx / wx")
  case True
  then have m: "c_fmod vx wx = spec_mod vx wx"
    by (simp add: c_fmod_def trunc_def spec_mod_def)
  have "0 \<le> spec_mod vx wx"
    using assms by (rule spec_mod_range)
  with m assms show ?thesis
    by (simp add: float_rem_def Let_def)
next
  case False
  then have t: "trunc (vx / wx) = \<lceil>vx / wx\<rceil>"
    by (simp add: trunc_def)
  show ?thesis
  proof (cases "vx / wx = of_int \<lfloor>vx / wx\<rfloor>")
    case True
    then have "\<lceil>vx / wx\<rceil> = \<lfloor>vx / wx\<rfloor>"
      by (simp add: ceiling_altdef)
    with t have m: "c_fmod vx wx = spec_mod vx wx"
      by (simp add: c_fmod_def spec_mod_def)
    have "0 \<le> spec_mod vx wx"
      using assms by (rule spec_mod_range)
    with m assms show ?thesis
      by (simp add: float_rem_def Let_def)
  next
    case False
    then have c: "\<lceil>vx / wx\<rceil> = \<lfloor>vx / wx\<rfloor> + 1"
      by (simp add: ceiling_altdef)
    with t have m: "c_fmod vx wx = spec_mod vx wx - wx"
      by (simp add: c_fmod_def spec_mod_def algebra_simps)
    have "spec_mod vx wx < wx"
      using assms by (rule spec_mod_range)
    with m have neg: "c_fmod vx wx < 0" by simp
    with m assms show ?thesis
      by (simp add: float_rem_def Let_def)
  qed
qed

lemma grid_offset_v2_eq: "grid_offset_v2 bo bts = grid_offset bo bts"
  by (simp add: grid_offset_v2_def grid_offset_def Let_def split: option.splits sum.splits)

lemma grid_offset_pos:
  assumes "0 < b" and "beat_times \<noteq> []"
  shows "grid_offset (Some b) beat_times =
           Inr (if \<bar>spec_mod (hd beat_times) (60 / b)\<bar> < 2 / 100 then 0
                else spec_mod (hd beat_times) (60 / b))"
proof -
  have "0 < 60 / b" using assms(1) by simp
  then have "float_rem (hd beat_times) (60 / b) = Inr (spec_mod (hd beat_times) (60 / b))"
    by (rule float_rem_pos)
  with assms show ?thesis
    by (simp add: grid_offset_def Let_def)
qed






subsection \<open>Downbeats\<close>

lemma range_step_bounds: "j \<in> set (range_step i n step) \<Longrightarrow> i \<le> j \<and> j < n"
proof (induction i n step rule: range_step.induct)
  case (1 i n step)
  show ?case
  proof (cases "0 < step \<and> i < n")
    case True
    then have "range_step i n step = i # range_step (i + step) n step"
      by (subst range_step.simps) simp
    with "1.prems" have "j = i \<or> j \<in> set (range_step (i + step) n step)" by simp
    then show ?thesis
    proof
      assume "j = i" with True show ?thesis by simp
    next
      assume "j \<in> set (range_step (i + step) n step)"
      with "1.IH" True have "i + step \<le> j \<and> j < n" by simp
      then show ?thesis by simp
    qed
  next
    case False
    then have "range_step i n step = []" by (subst range_step.simps) simp
    with "1.prems" show ?thesis by simp
  qed
qed

lemma range_step_sorted: "sorted_wrt (<) (range_step i n step)"
proof (induction i n step rule: range_step.induct)
  case (1 i n step)
  show ?case
  proof (cases "0 < step \<and> i < n")
    case True
    then have eq: "range_step i n step = i # range_step (i + step) n step"
      by (subst range_step.simps) simp
    have "\<forall>j\<in>set (range_step (i + step) n step). i < j"
    proof
      fix j assume "j \<in> set (range_step (i + step) n step)"
      then have "i + step \<le> j" using range_step_bounds by blast
      with True show "i < j" by simp
    qed
    with "1.IH" True eq show ?thesis by simp
  next
    case False
    then have "range_step i n step = []" by (subst range_step.simps) simp
    then show ?thesis by simp
  qed
qed

lemma range_step_closed:
  assumes "0 < step"
  shows "range_step i n step = map (\<lambda>k. i + k * step) [0..<(n - i + step - 1) div step]"
  using assms
proof (induction i n step rule: range_step.induct)
  case (1 i n step)
  show ?case
  proof (cases "i < n")
    case True
    then have eq: "range_step i n step = i # range_step (i + step) n step"
      using "1.prems" by (subst range_step.simps) simp
    have ih: "range_step (i + step) n step =
                map (\<lambda>k. i + step + k * step) [0..<(n - (i + step) + step - 1) div step]"
      using "1.IH" True "1.prems" by simp
    have cnt: "(n - i + step - 1) div step = Suc ((n - (i + step) + step - 1) div step)"
    proof (cases "step \<le> n - i")
      case True
      then have "n - i + step - 1 = (n - (i + step) + step - 1) + step"
        using "1.prems" by simp
      then have "(n - i + step - 1) div step = ((n - (i + step) + step - 1) + step) div step"
        by (rule arg_cong)
      also have "\<dots> = Suc ((n - (i + step) + step - 1) div step)"
        using "1.prems" by (simp only: div_add_self2)
      finally show ?thesis .
    next
      case False
      then have a: "n - (i + step) = 0" by simp
      have "step \<le> n - i + step - 1" using True by simp
      moreover have "n - i + step - 1 < 2 * step" using False by simp
      ultimately have "(n - i + step - 1) div step = 1"
        by (intro div_nat_eqI) simp_all
      with a "1.prems" show ?thesis by simp
    qed
    have "map (\<lambda>k. i + k * step) [0..<Suc m] = i # map (\<lambda>k. i + step + k * step) [0..<m]" for m
      by (simp add: upt_conv_Cons map_Suc_upt[symmetric] del: upt_Suc)
    with eq ih cnt show ?thesis by simp
  next
    case False
    then have "range_step i n step = []" by (subst range_step.simps) simp
    moreover have "(n - i + step - 1) div step = 0" using False "1.prems" by simp
    ultimately show ?thesis by simp
  qed
qed

lemma sorted_pred:
  assumes "sorted_wrt (<) js" and "\<forall>j\<in>set js. 0 < (j::nat)"
  shows "sorted_wrt (<) (map (\<lambda>j. j - 1) js)"
proof -
  have "sorted_wrt (\<lambda>a b. a - 1 < b - 1) js"
  proof (rule sorted_wrt_mono_rel [OF _ assms(1)])
    fix a b assume "a \<in> set js" "b \<in> set js" "a < b"
    with assms(2) show "a - 1 < b - 1" by (simp add: less_diff_conv2 Suc_leI)
  qed
  then show ?thesis by (simp add: sorted_wrt_map)
qed

lemma subseq_map_nth:
  "sorted_wrt (<) is \<Longrightarrow> \<forall>i\<in>set is. i < length xs \<Longrightarrow> subseq (map ((!) xs) is) xs"
proof (induction xs arbitrary: "is")
  case Nil
  then show ?case by (cases "is") auto
next
  case (Cons x xs)
  show ?case
  proof (cases "is")
    case Nil
    then show ?thesis by simp
  next
    case (Cons i is')
    show ?thesis
    proof (cases i)
      case 0
      with Cons Cons.prems have pos: "\<forall>j\<in>set is'. 0 < j" by auto
      then have m: "map ((!) (x # xs)) is' = map ((!) xs) (map (\<lambda>j. j - 1) is')"
        by (auto simp: nth_Cons')
      have s: "sorted_wrt (<) (map (\<lambda>j. j - 1) is')"
        using Cons Cons.prems(1) pos by (intro sorted_pred) simp_all
      have b: "\<forall>j\<in>set (map (\<lambda>j. j - 1) is'). j < length xs"
        using Cons Cons.prems(2) pos by auto
      have "subseq (map ((!) (x # xs)) is') xs"
        unfolding m using s b by (rule Cons.IH)
      with 0 Cons show ?thesis by simp
    next
      case (Suc k)
      with Cons Cons.prems have pos: "\<forall>j\<in>set is. 0 < j" by auto
      then have m: "map ((!) (x # xs)) is = map ((!) xs) (map (\<lambda>j. j - 1) is)"
        by (auto simp: nth_Cons')
      have s: "sorted_wrt (<) (map (\<lambda>j. j - 1) is)"
        using Cons.prems(1) pos by (intro sorted_pred) simp_all
      have b: "\<forall>j\<in>set (map (\<lambda>j. j - 1) is). j < length xs"
        using Cons.prems(2) pos by auto
      have "subseq (map ((!) (x # xs)) is) xs"
        unfolding m using s b by (rule Cons.IH)
      then show ?thesis by (rule list_emb_Cons)
    qed
  qed
qed

text \<open>
  \<^bold>\<open>C4.\<close> The downbeats of the second script are the beats at the indices
  \<open>0, N, 2N, \<dots>\<close> below the number of beats, in that order, for \<open>N\<close> beats per bar; they
  form a subsequence of the beats; there are none when there is no beat or \<open>N < 1\<close>.
\<close>

theorem infer_downbeats_every_nth:
  "infer_downbeats_from_beats bts N =
     (if bts = [] \<or> N < 1 then []
      else map (\<lambda>k. bts ! (k * nat N)) [0..<(length bts + nat N - 1) div nat N])
   \<and> (\<forall>k < (length bts + nat N - 1) div nat N. 1 \<le> N \<longrightarrow> k * nat N < length bts)
   \<and> (1 \<le> N \<longrightarrow> length bts \<le> ((length bts + nat N - 1) div nat N) * nat N)
   \<and> subseq (infer_downbeats_from_beats bts N) bts"
proof (cases "bts = [] \<or> N < 1")
  case True
  then show ?thesis
    by (auto simp: infer_downbeats_from_beats_def)
next
  case False
  then have N: "0 < nat N" by simp
  let ?c = "(length bts + nat N - 1) div nat N"
  have rs: "range_step 0 (length bts) (nat N) = map (\<lambda>k. k * nat N) [0..<?c]"
    using range_step_closed [OF N, of 0 "length bts"] by simp
  have eq: "infer_downbeats_from_beats bts N = map (\<lambda>k. bts ! (k * nat N)) [0..<?c]"
    using False by (simp add: infer_downbeats_from_beats_def rs comp_def)
  have inb: "\<forall>k < ?c. k * nat N < length bts"
  proof (intro allI impI)
    fix k assume "k < ?c"
    then have "k * nat N \<in> set (range_step 0 (length bts) (nat N))"
      by (auto simp: rs)
    then show "k * nat N < length bts"
      using range_step_bounds by blast
  qed
  have cover: "length bts \<le> ?c * nat N"
  proof -
    have "length bts + nat N - 1 < ?c * nat N + nat N"
      using N dividend_less_div_times [of "nat N" "length bts + nat N - 1"] by simp
    then show ?thesis using N by arith
  qed
  have sub: "subseq (infer_downbeats_from_beats bts N) bts"
  proof -
    have "subseq (map ((!) bts) (range_step 0 (length bts) (nat N))) bts"
      using range_step_sorted range_step_bounds by (intro subseq_map_nth) blast+
    with False show ?thesis
      by (simp add: infer_downbeats_from_beats_def)
  qed
  from eq inb cover sub False show ?thesis by simp
qed

theorem infer_downbeats_every_nth_witness:
  "infer_downbeats_from_beats [1, 2, 3, 4, 5, 6, 7, 8, 9] 4 = [1, 5, 9]
   \<and> infer_downbeats_from_beats [1, 2] 4 = [1]
   \<and> infer_downbeats_from_beats [1, 2, 3] 0 = []
   \<and> infer_downbeats_from_beats [] 4 = []
   \<and> subseq (infer_downbeats_from_beats [1, 2, 3, 4, 5, 6, 7, 8, 9] 4) [1, 2, 3, 4, 5, 6, 7, 8, 9]"
  using infer_downbeats_every_nth [of "[1, 2, 3, 4, 5, 6, 7, 8, 9]" 4]
    infer_downbeats_every_nth [of "[1, 2]" 4]
    infer_downbeats_every_nth [of "[1, 2, 3]" 0]
    infer_downbeats_every_nth [of "[]" 4]
  by (simp add: upt_conv_Cons)

subsection \<open>Stability\<close>

lemma np_diff_length: "length (np_diff xs) = length xs - 1"
  by (induction xs rule: np_diff.induct) auto

lemma np_diff_nth: "Suc i < length xs \<Longrightarrow> np_diff xs ! i = xs ! Suc i - xs ! i"
proof (induction xs arbitrary: i rule: np_diff.induct)
  case (1 x y xs)
  then show ?case by (cases i) auto
qed auto

lemma np_diff_conv: "np_diff xs = map (\<lambda>i. xs ! Suc i - xs ! i) [0..<length xs - 1]"
  by (rule nth_equalityI) (auto simp: np_diff_length np_diff_nth)

lemma np_diff_all_pos:
  "list_all (\<lambda>d. d > 0) (np_diff xs) \<longleftrightarrow> \<not> (\<exists>i. Suc i < length xs \<and> xs ! Suc i - xs ! i \<le> 0)"
  by (auto simp: list_all_length np_diff_length np_diff_nth not_le less_diff_conv)

lemma np_clip_range: "lo \<le> hi \<Longrightarrow> lo \<le> np_clip a lo hi \<and> np_clip a lo hi \<le> hi"
  by (simp add: np_clip_def)

text \<open>
  \<^bold>\<open>C3.\<close> The confidence is \<^verbatim>\<open>None\<close> or a number in \<open>[0, 1]\<close>. It is \<^verbatim>\<open>None\<close> when there
  are fewer than three beats or when some beat is not later than the one before it.
  Otherwise it is \<open>clip(1 - std / (mean + 10\<^sup>-\<^sup>6), 0, 1)\<close> of the differences of consecutive
  beats, with the population standard deviation.
\<close>

theorem stability_range:
  "(stability bts = None \<or> (\<exists>c. stability bts = Some c \<and> 0 \<le> c \<and> c \<le> 1))
   \<and> (length bts < 3 \<or> (\<exists>i. Suc i < length bts \<and> bts ! Suc i - bts ! i \<le> 0)
        \<longrightarrow> stability bts = None)
   \<and> (\<not> (length bts < 3 \<or> (\<exists>i. Suc i < length bts \<and> bts ! Suc i - bts ! i \<le> 0))
        \<longrightarrow> (let intervals = map (\<lambda>i. bts ! Suc i - bts ! i) [0..<length bts - 1]
             in stability bts =
                  Some (np_clip (1 - np_std intervals / (np_mean intervals + 1 / 1000000)) 0 1)))"
proof (intro conjI impI)
  show "stability bts = None \<or> (\<exists>c. stability bts = Some c \<and> 0 \<le> c \<and> c \<le> 1)"
    using np_clip_range [of 0 1] by (simp add: stability_def Let_def)
next
  assume "length bts < 3 \<or> (\<exists>i. Suc i < length bts \<and> bts ! Suc i - bts ! i \<le> 0)"
  then show "stability bts = None"
    using np_diff_all_pos [of bts] by (auto simp: stability_def Let_def)
next
  assume "\<not> (length bts < 3 \<or> (\<exists>i. Suc i < length bts \<and> bts ! Suc i - bts ! i \<le> 0))"
  then have "3 \<le> length bts" and "list_all (\<lambda>d. d > 0) (np_diff bts)"
    using np_diff_all_pos [of bts] by auto
  then show "let intervals = map (\<lambda>i. bts ! Suc i - bts ! i) [0..<length bts - 1]
             in stability bts =
                  Some (np_clip (1 - np_std intervals / (np_mean intervals + 1 / 1000000)) 0 1)"
    unfolding Let_def np_diff_conv [symmetric] by (simp add: stability_def Let_def)
qed

theorem stability_range_witness:
  "stability [1 / 2, 1, 3 / 2, 2] = Some 1
   \<and> stability [0, 1, 3] = Some (1 - (1 / 2) / (3 / 2 + 1 / 1000000))
   \<and> stability [1, 2] = None
   \<and> stability [1, 3, 2] = None"
proof -
  have a: "stability [1 / 2, 1, 3 / 2, 2] = Some 1"
    using stability_range [of "[1 / 2, 1, 3 / 2, 2]"]
    by (simp add: stability_def np_std_def np_mean_def np_clip_def)
  have b: "stability [0, 1, 3] = Some (1 - (1 / 2) / (3 / 2 + 1 / 1000000))"
    using stability_range [of "[0, 1, 3]"]
    by (simp add: stability_def np_std_def np_mean_def np_clip_def power2_eq_square
        real_sqrt_divide)
  have c: "stability [1, 2] = None"
    using stability_range [of "[1, 2]"] by simp
  have "Suc 1 < length [1, 3, 2 :: real] \<and> [1, 3, 2 :: real] ! Suc 1 - [1, 3, 2] ! 1 \<le> 0"
    by simp
  then have "\<exists>i. Suc i < length [1, 3, 2 :: real] \<and> [1, 3, 2 :: real] ! Suc i - [1, 3, 2] ! i \<le> 0"
    by (rule exI)
  then have d: "stability [1, 3, 2] = None"
    using stability_range [of "[1, 3, 2]"] by blast
  from a b c d show ?thesis by simp
qed

subsection \<open>Decoding and cleaning up\<close>

lemma decode_with_wav:
  "lower (snd (splitext p)) = ''.wav'' \<Longrightarrow> decode_with msg w p = (w, Inr (p, False))"
  by (simp add: decode_with_def)

lemma decode_with_no_name:
  assumes "lower (snd (splitext p)) \<noteq> ''.wav''"
    and "find (\<lambda>q. q \<notin> files w) (tmp_names w) = None"
  shows "decode_with msg w p = (w, Inl (OSError ''No usable temporary file name found''))"
  using assms by (simp add: decode_with_def mkstemp_def)

lemma decode_with_run:
  assumes "lower (snd (splitext p)) \<noteq> ''.wav''"
    and "find (\<lambda>q. q \<notin> files w) (tmp_names w) = Some tmp"
  shows "decode_with msg w p =
     (case run_process w (ffmpeg_cmd w p tmp) of
        Exited returncode err \<Rightarrow>
          if returncode = 0
          then (w\<lparr>files := insert tmp (files w), calls := calls w @ [ffmpeg_cmd w p tmp]\<rparr>,
                Inr (tmp, True))
          else (w\<lparr>calls := calls w @ [ffmpeg_cmd w p tmp]\<rparr>,
                Inl (RuntimeError (msg @ utf8_ignore err)))
      | NotStarted e \<Rightarrow>
          (w\<lparr>files := insert tmp (files w), calls := calls w @ [ffmpeg_cmd w p tmp]\<rparr>, Inl e))"
proof -
  from assms(2) have fresh: "tmp \<notin> files w"
    by (auto simp: find_Some_iff)
  then have "insert tmp (files w) - {tmp} = files w" by auto
  with assms show ?thesis
    by (simp add: decode_with_def mkstemp_def subprocess_run_def os_remove_def ffmpeg_cmd_def
        Let_def split: run_result.splits)
qed


lemma analyze_wav:
  assumes "lower (snd (splitext p)) = ''.wav''"
  shows "analyze w p =
           (w, case beat_track w p of Inl e \<Rightarrow> Inl e
               | Inr (tempo, beat_times) \<Rightarrow> assemble tempo beat_times)"
  using assms by (simp add: analyze_def decode_to_wav_def decode_with_wav)

lemma analyze_no_name:
  assumes "lower (snd (splitext p)) \<noteq> ''.wav''"
    and "find (\<lambda>q. q \<notin> files w) (tmp_names w) = None"
  shows "analyze w p = (w, Inl (OSError ''No usable temporary file name found''))"
  using assms by (simp add: analyze_def decode_to_wav_def decode_with_no_name)

lemma analyze_run:
  assumes "lower (snd (splitext p)) \<noteq> ''.wav''"
    and "find (\<lambda>q. q \<notin> files w) (tmp_names w) = Some tmp"
  shows "analyze w p =
     (case run_process w (ffmpeg_cmd w p tmp) of
        Exited returncode err \<Rightarrow>
          if returncode = 0
          then (w\<lparr>calls := calls w @ [ffmpeg_cmd w p tmp]\<rparr>,
                case beat_track w tmp of Inl e \<Rightarrow> Inl e
                | Inr (tempo, beat_times) \<Rightarrow> assemble tempo beat_times)
          else (w\<lparr>calls := calls w @ [ffmpeg_cmd w p tmp]\<rparr>,
                Inl (RuntimeError (''ffmpeg failed to decode input: '' @ utf8_ignore err)))
      | NotStarted e \<Rightarrow>
          (w\<lparr>files := insert tmp (files w), calls := calls w @ [ffmpeg_cmd w p tmp]\<rparr>, Inl e))"
proof -
  from assms(2) have fresh: "tmp \<notin> files w"
    by (auto simp: find_Some_iff)
  then have "insert tmp (files w) - {tmp} = files w" by auto
  then show ?thesis
    by (simp add: analyze_def decode_to_wav_def decode_with_run [OF assms] os_remove_def
        Let_def split: run_result.splits)
qed

lemma analyze_v2_wav:
  assumes "lower (snd (splitext p)) = ''.wav''"
  shows "analyze_v2 w p =
           (w, case beat_track_v2 w p of Inl e \<Rightarrow> Inl e
               | Inr (tempo, beat_times) \<Rightarrow> assemble_v2 tempo beat_times)"
  using assms by (simp add: analyze_v2_def decode_to_wav_v2_def decode_with_wav)

lemma analyze_v2_no_name:
  assumes "lower (snd (splitext p)) \<noteq> ''.wav''"
    and "find (\<lambda>q. q \<notin> files w) (tmp_names w) = None"
  shows "analyze_v2 w p = (w, Inl (OSError ''No usable temporary file name found''))"
  using assms by (simp add: analyze_v2_def decode_to_wav_v2_def decode_with_no_name)

lemma analyze_v2_run:
  assumes "lower (snd (splitext p)) \<noteq> ''.wav''"
    and "find (\<lambda>q. q \<notin> files w) (tmp_names w) = Some tmp"
  shows "analyze_v2 w p =
     (case run_process w (ffmpeg_cmd w p tmp) of
        Exited returncode err \<Rightarrow>
          if returncode = 0
          then (w\<lparr>calls := calls w @ [ffmpeg_cmd w p tmp]\<rparr>,
                case beat_track_v2 w tmp of Inl e \<Rightarrow> Inl e
                | Inr (tempo, beat_times) \<Rightarrow> assemble_v2 tempo beat_times)
          else (w\<lparr>calls := calls w @ [ffmpeg_cmd w p tmp]\<rparr>,
                Inl (RuntimeError (''ffmpeg decode failed: '' @ utf8_ignore err)))
      | NotStarted e \<Rightarrow>
          (w\<lparr>files := insert tmp (files w), calls := calls w @ [ffmpeg_cmd w p tmp]\<rparr>, Inl e))"
proof -
  from assms(2) have fresh: "tmp \<notin> files w"
    by (auto simp: find_Some_iff)
  then have "insert tmp (files w) - {tmp} = files w" by auto
  then show ?thesis
    by (simp add: analyze_v2_def decode_to_wav_v2_def decode_with_run [OF assms] os_remove_def
        Let_def split: run_result.splits)
qed

text \<open>Where the files on disk end up after one analysis.\<close>

lemma analyze_files:
  "files (fst (analyze w p)) = files w
   \<or> (\<exists>tmp e. lower (snd (splitext p)) \<noteq> ''.wav''
         \<and> find (\<lambda>q. q \<notin> files w) (tmp_names w) = Some tmp
         \<and> run_process w (ffmpeg_cmd w p tmp) = NotStarted e
         \<and> snd (analyze w p) = Inl e
         \<and> files (fst (analyze w p)) = insert tmp (files w))"
proof (cases "lower (snd (splitext p)) = ''.wav''")
  case True
  then show ?thesis by (simp add: analyze_wav)
next
  case False
  show ?thesis
  proof (cases "find (\<lambda>q. q \<notin> files w) (tmp_names w)")
    case None
    with False show ?thesis by (simp add: analyze_no_name)
  next
    case (Some tmp)
    with False show ?thesis
      by (cases "run_process w (ffmpeg_cmd w p tmp)") (simp_all add: analyze_run)
  qed
qed

lemma wm_ext: "lower (snd (splitext ''/music/b.mp3'')) \<noteq> ''.wav''"
  by code_simp

lemma wm_find: "find (\<lambda>q. q \<notin> files world_decoder_missing) (tmp_names world_decoder_missing)
                  = Some ''/tmp/tmp1.wav''"
  by (simp add: world_decoder_missing_def world_ok_def)

text \<open>
  \<^bold>\<open>C5.\<close> The temporary file is not removed on every exit path. When the decoder cannot
  be started (\<open>analyze_files\<close>: the only such path), the exception leaves
  \<^verbatim>\<open>_decode_to_wav\<close> past its single handler and reaches \<^verbatim>\<open>analyze\<close> before the \<^verbatim>\<open>try\<close>,
  so nothing removes the file that \<^verbatim>\<open>mkstemp\<close> created: it is on disk after the run, in
  both scripts, while the error is reported.
\<close>

theorem temp_file_left_when_decoder_missing:
  "''/tmp/tmp1.wav'' \<notin> files world_decoder_missing
   \<and> snd (analyze world_decoder_missing ''/music/b.mp3'')
       = Inl (OSError ''[Errno 2] No such file or directory: ffmpeg'')
   \<and> ''/tmp/tmp1.wav'' \<in> files (fst (analyze world_decoder_missing ''/music/b.mp3''))
   \<and> snd (analyze_v2 world_decoder_missing ''/music/b.mp3'')
       = Inl (OSError ''[Errno 2] No such file or directory: ffmpeg'')
   \<and> ''/tmp/tmp1.wav'' \<in> files (fst (analyze_v2 world_decoder_missing ''/music/b.mp3''))
   \<and> ''/tmp/tmp1.wav'' \<in> files (fst (main world_decoder_missing ''/music/b.mp3''))
   \<and> ''/tmp/tmp1.wav'' \<in> files (fst (main_v2 world_decoder_missing ''/music/b.mp3''))"
  by (simp add: main_def main_v2_def analyze_run [OF wm_ext wm_find] analyze_v2_run [OF wm_ext wm_find])
    (simp add: world_decoder_missing_def world_ok_def)


lemma utf8_ignore_ascii: "\<forall>c\<in>set s. (of_char c :: nat) < 128 \<Longrightarrow> utf8_ignore s = s"
  by (induction s) (simp_all add: Let_def)

text \<open>
  \<^bold>\<open>C6.\<close> When the input is not a WAV file, the temporary file was created and the
  decoder exits with a non-zero status, \<^verbatim>\<open>_decode_to_wav\<close> raises a \<^verbatim>\<open>RuntimeError\<close> whose
  message is the script's fixed text followed by the decoded stderr of the decoder (all
  of it when it is ASCII), and the temporary file is not on disk afterwards; apart from
  the recorded command line the world is as before.
\<close>

theorem decoder_failure_reported:
  "lower (snd (splitext p)) \<noteq> ''.wav''
   \<and> find (\<lambda>q. q \<notin> files w) (tmp_names w) = Some tmp
   \<and> run_process w (ffmpeg_cmd w p tmp) = Exited returncode err
   \<and> returncode \<noteq> 0
   \<longrightarrow>
     decode_to_wav w p =
       (w\<lparr>calls := calls w @ [ffmpeg_cmd w p tmp]\<rparr>,
        Inl (RuntimeError (''ffmpeg failed to decode input: '' @ utf8_ignore err)))
     \<and> decode_to_wav_v2 w p =
       (w\<lparr>calls := calls w @ [ffmpeg_cmd w p tmp]\<rparr>,
        Inl (RuntimeError (''ffmpeg decode failed: '' @ utf8_ignore err)))
     \<and> tmp \<notin> files (fst (decode_to_wav w p))
     \<and> tmp \<notin> files (fst (decode_to_wav_v2 w p))
     \<and> ((\<forall>c\<in>set err. (of_char c :: nat) < 128) \<longrightarrow> utf8_ignore err = err)"
proof (intro impI)
  assume a: "lower (snd (splitext p)) \<noteq> ''.wav''
   \<and> find (\<lambda>q. q \<notin> files w) (tmp_names w) = Some tmp
   \<and> run_process w (ffmpeg_cmd w p tmp) = Exited returncode err
   \<and> returncode \<noteq> 0"
  then have e: "lower (snd (splitext p)) \<noteq> ''.wav''"
    and f: "find (\<lambda>q. q \<notin> files w) (tmp_names w) = Some tmp"
    and r: "run_process w (ffmpeg_cmd w p tmp) = Exited returncode err"
    and n: "returncode \<noteq> 0"
    by simp_all
  from f have fresh: "tmp \<notin> files w"
    by (auto simp: find_Some_iff)
  have d1: "decode_to_wav w p =
       (w\<lparr>calls := calls w @ [ffmpeg_cmd w p tmp]\<rparr>,
        Inl (RuntimeError (''ffmpeg failed to decode input: '' @ utf8_ignore err)))"
    using r n by (simp add: decode_to_wav_def decode_with_run [OF e f])
  have d2: "decode_to_wav_v2 w p =
       (w\<lparr>calls := calls w @ [ffmpeg_cmd w p tmp]\<rparr>,
        Inl (RuntimeError (''ffmpeg decode failed: '' @ utf8_ignore err)))"
    using r n by (simp add: decode_to_wav_v2_def decode_with_run [OF e f])
  have a: "(\<forall>c\<in>set err. (of_char c :: nat) < 128) \<longrightarrow> utf8_ignore err = err"
    using utf8_ignore_ascii by blast
  from d1 d2 fresh a show "decode_to_wav w p =
       (w\<lparr>calls := calls w @ [ffmpeg_cmd w p tmp]\<rparr>,
        Inl (RuntimeError (''ffmpeg failed to decode input: '' @ utf8_ignore err)))
     \<and> decode_to_wav_v2 w p =
       (w\<lparr>calls := calls w @ [ffmpeg_cmd w p tmp]\<rparr>,
        Inl (RuntimeError (''ffmpeg decode failed: '' @ utf8_ignore err)))
     \<and> tmp \<notin> files (fst (decode_to_wav w p))
     \<and> tmp \<notin> files (fst (decode_to_wav_v2 w p))
     \<and> ((\<forall>c\<in>set err. (of_char c :: nat) < 128) \<longrightarrow> utf8_ignore err = err)"
    by simp
qed

lemma wf_find: "find (\<lambda>q. q \<notin> files world_decoder_fails) (tmp_names world_decoder_fails)
                  = Some ''/tmp/tmp1.wav''"
  by (simp add: world_decoder_fails_def world_ok_def)

lemma wf_run: "run_process world_decoder_fails c = Exited 1 ''b.mp3: Invalid data found''"
  by (simp add: world_decoder_fails_def world_ok_def)

theorem decoder_failure_reported_witness:
  "lower (snd (splitext ''/music/b.mp3'')) \<noteq> ''.wav''
   \<and> find (\<lambda>q. q \<notin> files world_decoder_fails) (tmp_names world_decoder_fails)
       = Some ''/tmp/tmp1.wav''
   \<and> run_process world_decoder_fails
        (ffmpeg_cmd world_decoder_fails ''/music/b.mp3'' ''/tmp/tmp1.wav'')
       = Exited 1 ''b.mp3: Invalid data found''
   \<and> (1::int) \<noteq> 0
   \<and> snd (decode_to_wav world_decoder_fails ''/music/b.mp3'')
       = Inl (RuntimeError ''ffmpeg failed to decode input: b.mp3: Invalid data found'')
   \<and> snd (decode_to_wav_v2 world_decoder_fails ''/music/b.mp3'')
       = Inl (RuntimeError ''ffmpeg decode failed: b.mp3: Invalid data found'')
   \<and> files (fst (decode_to_wav world_decoder_fails ''/music/b.mp3''))
       = {''/music/a.WAV'', ''/music/b.mp3''}
   \<and> files (fst (decode_to_wav_v2 world_decoder_fails ''/music/b.mp3''))
       = {''/music/a.WAV'', ''/music/b.mp3''}"
proof -
  let ?w = world_decoder_fails
  let ?cmd = "ffmpeg_cmd ?w ''/music/b.mp3'' ''/tmp/tmp1.wav''"
  have h: "lower (snd (splitext ''/music/b.mp3'')) \<noteq> ''.wav''
     \<and> find (\<lambda>q. q \<notin> files ?w) (tmp_names ?w) = Some ''/tmp/tmp1.wav''
     \<and> run_process ?w ?cmd = Exited 1 ''b.mp3: Invalid data found''
     \<and> (1::int) \<noteq> 0"
    by (simp add: wm_ext wf_find wf_run)
  have u: "utf8_ignore ''b.mp3: Invalid data found'' = ''b.mp3: Invalid data found''"
    by code_simp
  have fs: "files ?w = {''/music/a.WAV'', ''/music/b.mp3''}"
    by (simp add: world_decoder_fails_def world_ok_def)
  have "decode_to_wav ?w ''/music/b.mp3'' =
          (?w\<lparr>calls := calls ?w @ [?cmd]\<rparr>,
           Inl (RuntimeError (''ffmpeg failed to decode input: ''
                              @ utf8_ignore ''b.mp3: Invalid data found'')))
        \<and> decode_to_wav_v2 ?w ''/music/b.mp3'' =
          (?w\<lparr>calls := calls ?w @ [?cmd]\<rparr>,
           Inl (RuntimeError (''ffmpeg decode failed: ''
                              @ utf8_ignore ''b.mp3: Invalid data found'')))"
    using decoder_failure_reported [of "''/music/b.mp3''" ?w "''/tmp/tmp1.wav''"
        1 "''b.mp3: Invalid data found''"] h
    by blast
  then have "snd (decode_to_wav ?w ''/music/b.mp3'')
       = Inl (RuntimeError ''ffmpeg failed to decode input: b.mp3: Invalid data found'')
     \<and> snd (decode_to_wav_v2 ?w ''/music/b.mp3'')
       = Inl (RuntimeError ''ffmpeg decode failed: b.mp3: Invalid data found'')
     \<and> files (fst (decode_to_wav ?w ''/music/b.mp3'')) = {''/music/a.WAV'', ''/music/b.mp3''}
     \<and> files (fst (decode_to_wav_v2 ?w ''/music/b.mp3'')) = {''/music/a.WAV'', ''/music/b.mp3''}"
    by (simp add: u fs)
  with h show ?thesis by simp
qed

lemma analyze_v2_files:
  "files (fst (analyze_v2 w p)) = files w
   \<or> (\<exists>tmp e. lower (snd (splitext p)) \<noteq> ''.wav''
         \<and> find (\<lambda>q. q \<notin> files w) (tmp_names w) = Some tmp
         \<and> run_process w (ffmpeg_cmd w p tmp) = NotStarted e
         \<and> snd (analyze_v2 w p) = Inl e
         \<and> files (fst (analyze_v2 w p)) = insert tmp (files w))"
proof (cases "lower (snd (splitext p)) = ''.wav''")
  case True
  then show ?thesis by (simp add: analyze_v2_wav)
next
  case False
  show ?thesis
  proof (cases "find (\<lambda>q. q \<notin> files w) (tmp_names w)")
    case None
    with False show ?thesis by (simp add: analyze_v2_no_name)
  next
    case (Some tmp)
    with False show ?thesis
      by (cases "run_process w (ffmpeg_cmd w p tmp)") (simp_all add: analyze_v2_run)
  qed
qed

subsection \<open>The boundary\<close>

text \<open>
  \<^bold>\<open>C7.\<close> Whatever exception an analysis ends with, \<^verbatim>\<open>main\<close> writes nothing to standard
  output, writes the single object \<open>{"error": message}\<close> to standard error and exits with
  status 1. Standard output is written only after a successful analysis: then it holds
  the one complete record, standard error is empty and the status is 0.
\<close>

theorem main_reports_failure:
  "(snd (analyze w p) = Inl e \<longrightarrow>
      main w p = (fst (analyze w p),
                  \<lparr>stdout = [], stderr = [JObj [(''error'', JStr (str_exn e))]], exit_code = 1\<rparr>))
   \<and> (snd (analyze_v2 w p) = Inl e \<longrightarrow>
      main_v2 w p = (fst (analyze_v2 w p),
                  \<lparr>stdout = [], stderr = [JObj [(''error'', JStr (str_exn e))]], exit_code = 1\<rparr>))
   \<and> (stdout (snd (main w p)) \<noteq> [] \<longrightarrow>
        (\<exists>g. snd (analyze w p) = Inr g \<and> snd (main w p) =
           \<lparr>stdout = [json_of_grid g], stderr = [], exit_code = 0\<rparr>))
   \<and> (stdout (snd (main_v2 w p)) \<noteq> [] \<longrightarrow>
        (\<exists>g. snd (analyze_v2 w p) = Inr g \<and> snd (main_v2 w p) =
           \<lparr>stdout = [json_of_grid g], stderr = [], exit_code = 0\<rparr>))"
  by (auto simp: main_def main_v2_def json_of_error_def split: prod.splits sum.splits)

subsection \<open>Assembled results\<close>

lemma np_round1_0: "np_round1 0 = 0"
  by (simp add: np_round1_def rint_def)

lemma grid_offset_total: "\<exists>r. grid_offset bo bts = Inr r"
proof (cases bo)
  case None
  then show ?thesis by (simp add: grid_offset_def)
next
  case (Some b)
  show ?thesis
  proof (cases "0 < b \<and> bts \<noteq> []")
    case True
    then show ?thesis using Some grid_offset_pos [of b bts] by simp
  next
    case False
    then show ?thesis using Some by (auto simp: grid_offset_def)
  qed
qed

lemma assemble_total: "\<exists>g. assemble tempo bts = Inr g"
  using grid_offset_total [of "map_option np_round1 tempo" bts]
  by (auto simp: assemble_def Let_def)

lemma assemble_v2_total: "\<exists>g. assemble_v2 tempo bts = Inr g"
  using grid_offset_total [of "map_option np_round1 tempo" bts]
  by (auto simp: assemble_v2_def Let_def grid_offset_v2_eq)

lemma assemble_fields:
  assumes "assemble tempo bts = Inr g"
  shows "bpm g = map_option np_round1 tempo" and "beatTimesSec g = bts"
    and "grid_offset (bpm g) (beatTimesSec g) = Inr (gridOffsetSec g)"
    and "confidence g = stability (beatTimesSec g)"
    and "beatsPerBar g = 4" and "downbeatTimesSec g = None"
    and "analyzer g = ''librosa_beat_track_v1''"
  using assms by (auto simp: assemble_def Let_def split: sum.splits)

lemma assemble_v2_fields:
  assumes "assemble_v2 tempo bts = Inr g"
  shows "bpm g = map_option np_round1 tempo" and "beatTimesSec g = bts"
    and "grid_offset_v2 (bpm g) (beatTimesSec g) = Inr (gridOffsetSec g)"
    and "confidence g = stability (beatTimesSec g)"
    and "beatsPerBar g = 4"
    and "downbeatTimesSec g = Some (infer_downbeats_from_beats (beatTimesSec g) (beatsPerBar g))"
    and "analyzer g = ''librosa_v2_beats_downbeats''"
  using assms by (auto simp: assemble_v2_def Let_def split: sum.splits)

lemma analyze_result:
  assumes "snd (analyze w p) = Inr g"
  shows "\<exists>tempo bts. assemble tempo bts = Inr g"
proof (cases "lower (snd (splitext p)) = ''.wav''")
  case True
  with assms show ?thesis
    by (auto simp: analyze_wav split: sum.splits)
next
  case False
  show ?thesis
  proof (cases "find (\<lambda>q. q \<notin> files w) (tmp_names w)")
    case None
    with False assms show ?thesis by (simp add: analyze_no_name)
  next
    case (Some tmp)
    with False assms show ?thesis
      by (cases "run_process w (ffmpeg_cmd w p tmp)")
         (auto simp: analyze_run split: sum.splits if_splits)
  qed
qed

lemma analyze_v2_result:
  assumes "snd (analyze_v2 w p) = Inr g"
  shows "\<exists>tempo bts. assemble_v2 tempo bts = Inr g"
proof (cases "lower (snd (splitext p)) = ''.wav''")
  case True
  with assms show ?thesis
    by (auto simp: analyze_v2_wav split: sum.splits)
next
  case False
  show ?thesis
  proof (cases "find (\<lambda>q. q \<notin> files w) (tmp_names w)")
    case None
    with False assms show ?thesis by (simp add: analyze_v2_no_name)
  next
    case (Some tmp)
    with False assms show ?thesis
      by (cases "run_process w (ffmpeg_cmd w p tmp)")
         (auto simp: analyze_v2_run split: sum.splits if_splits)
  qed
qed

text \<open>
  \<^bold>\<open>C9.\<close> The grid offset, the confidence and (second script) the downbeats of a result
  are functions of its tempo, its beat times and its beats per bar alone: two runs, in
  any two worlds and on any two paths, whose results agree on these agree on the three
  derived fields.
\<close>

theorem derived_fields_pure:
  "(snd (analyze w1 p1) = Inr g1 \<and> snd (analyze w2 p2) = Inr g2
      \<and> bpm g1 = bpm g2 \<and> beatTimesSec g1 = beatTimesSec g2
    \<longrightarrow> gridOffsetSec g1 = gridOffsetSec g2 \<and> confidence g1 = confidence g2)
   \<and> (snd (analyze_v2 w1 p1) = Inr h1 \<and> snd (analyze_v2 w2 p2) = Inr h2
      \<and> bpm h1 = bpm h2 \<and> beatTimesSec h1 = beatTimesSec h2
      \<and> beatsPerBar h1 = beatsPerBar h2
    \<longrightarrow> gridOffsetSec h1 = gridOffsetSec h2 \<and> confidence h1 = confidence h2
        \<and> downbeatTimesSec h1 = downbeatTimesSec h2)
   \<and> (snd (analyze w1 p1) = Inr g1 \<longrightarrow>
        grid_offset (bpm g1) (beatTimesSec g1) = Inr (gridOffsetSec g1)
        \<and> confidence g1 = stability (beatTimesSec g1))
   \<and> (snd (analyze_v2 w1 p1) = Inr h1 \<longrightarrow>
        grid_offset_v2 (bpm h1) (beatTimesSec h1) = Inr (gridOffsetSec h1)
        \<and> confidence h1 = stability (beatTimesSec h1)
        \<and> downbeatTimesSec h1
            = Some (infer_downbeats_from_beats (beatTimesSec h1) (beatsPerBar h1)))"
proof -
  have g: "grid_offset (bpm g) (beatTimesSec g) = Inr (gridOffsetSec g)
           \<and> confidence g = stability (beatTimesSec g)"
    if "snd (analyze w p) = Inr g" for w p g
    using analyze_result [OF that] assemble_fields by blast
  have h: "grid_offset_v2 (bpm g) (beatTimesSec g) = Inr (gridOffsetSec g)
           \<and> confidence g = stability (beatTimesSec g)
           \<and> downbeatTimesSec g
               = Some (infer_downbeats_from_beats (beatTimesSec g) (beatsPerBar g))"
    if "snd (analyze_v2 w p) = Inr g" for w p g
    using analyze_v2_result [OF that] assemble_v2_fields by blast
  show ?thesis
  proof (intro conjI impI)
    assume a: "snd (analyze w1 p1) = Inr g1 \<and> snd (analyze w2 p2) = Inr g2
      \<and> bpm g1 = bpm g2 \<and> beatTimesSec g1 = beatTimesSec g2"
    then have "Inr (gridOffsetSec g1) = (Inr (gridOffsetSec g2) :: exn + real)"
      using g [of w1 p1 g1] g [of w2 p2 g2] by simp
    then show "gridOffsetSec g1 = gridOffsetSec g2" by simp
    from a show "confidence g1 = confidence g2"
      using g [of w1 p1 g1] g [of w2 p2 g2] by simp
  next
    assume a: "snd (analyze_v2 w1 p1) = Inr h1 \<and> snd (analyze_v2 w2 p2) = Inr h2
      \<and> bpm h1 = bpm h2 \<and> beatTimesSec h1 = beatTimesSec h2
      \<and> beatsPerBar h1 = beatsPerBar h2"
    then have "Inr (gridOffsetSec h1) = (Inr (gridOffsetSec h2) :: exn + real)"
      using h [of w1 p1 h1] h [of w2 p2 h2] by simp
    then show "gridOffsetSec h1 = gridOffsetSec h2" by simp
    from a show "confidence h1 = confidence h2"
      using h [of w1 p1 h1] h [of w2 p2 h2] by simp
    from a show "downbeatTimesSec h1 = downbeatTimesSec h2"
      using h [of w1 p1 h1] h [of w2 p2 h2] by simp
  next
    assume "snd (analyze w1 p1) = Inr g1"
    then show "grid_offset (bpm g1) (beatTimesSec g1) = Inr (gridOffsetSec g1)"
      and "confidence g1 = stability (beatTimesSec g1)"
      using g by blast+
  next
    assume "snd (analyze_v2 w1 p1) = Inr h1"
    then show "grid_offset_v2 (bpm h1) (beatTimesSec h1) = Inr (gridOffsetSec h1)"
      and "confidence h1 = stability (beatTimesSec h1)"
      and "downbeatTimesSec h1
            = Some (infer_downbeats_from_beats (beatTimesSec h1) (beatsPerBar h1))"
      using h by blast+
  qed
qed

text \<open>
  \<^bold>\<open>C10.\<close> A tempo of exactly zero gives the record \<open>bpm = 0.0\<close>, not \<^verbatim>\<open>None\<close>, with the
  offset 0; \<open>bpm\<close> is \<^verbatim>\<open>None\<close> exactly when the tempo is \<^verbatim>\<open>None\<close>.
\<close>

theorem zero_tempo_kept:
  "(\<exists>g. assemble (Some 0) bts = Inr g \<and> bpm g = Some 0 \<and> gridOffsetSec g = 0)
   \<and> (\<exists>g. assemble_v2 (Some 0) bts = Inr g \<and> bpm g = Some 0 \<and> gridOffsetSec g = 0)
   \<and> (assemble tempo bts = Inr g \<longrightarrow> (bpm g = None \<longleftrightarrow> tempo = None))
   \<and> (assemble_v2 tempo bts = Inr g \<longrightarrow> (bpm g = None \<longleftrightarrow> tempo = None))"
proof (intro conjI impI)
  show "\<exists>g. assemble (Some 0) bts = Inr g \<and> bpm g = Some 0 \<and> gridOffsetSec g = 0"
    by (simp add: assemble_def np_round1_0 grid_offset_def)
  show "\<exists>g. assemble_v2 (Some 0) bts = Inr g \<and> bpm g = Some 0 \<and> gridOffsetSec g = 0"
    by (simp add: assemble_v2_def np_round1_0 grid_offset_v2_def)
next
  assume "assemble tempo bts = Inr g"
  then show "bpm g = None \<longleftrightarrow> tempo = None"
    using assemble_fields(1) by simp
next
  assume "assemble_v2 tempo bts = Inr g"
  then show "bpm g = None \<longleftrightarrow> tempo = None"
    using assemble_v2_fields(1) by simp
qed


subsection \<open>Extensions\<close>

lemma find_rev_upt_last:
  assumes "i < n" and "P i" and "\<forall>j. i < j \<and> j < n \<longrightarrow> \<not> P j"
  shows "find P (rev [0..<n]) = Some i"
  using assms
proof (induction n)
  case 0
  then show ?case by simp
next
  case (Suc n)
  show ?case
  proof (cases "i = n")
    case True
    with Suc.prems show ?thesis by simp
  next
    case False
    with Suc.prems have "i < n" and "\<not> P n" by auto
    moreover from Suc.prems have "\<forall>j. i < j \<and> j < n \<longrightarrow> \<not> P j" by auto
    ultimately show ?thesis using Suc.IH Suc.prems(2) by simp
  qed
qed

lemma find_rev_upt_none: "\<forall>j < n. \<not> P j \<Longrightarrow> find P (rev [0..<n]) = None"
  by (induction n) auto

lemma rfind_last:
  assumes "c \<notin> set ys"
  shows "rfind (xs @ c # ys) c = int (length xs)"
proof -
  have "find (\<lambda>i. (xs @ c # ys) ! i = c) (rev [0..<length (xs @ c # ys)]) = Some (length xs)"
  proof (rule find_rev_upt_last)
    show "length xs < length (xs @ c # ys)" by simp
    show "(xs @ c # ys) ! length xs = c" by simp
    show "\<forall>j. length xs < j \<and> j < length (xs @ c # ys) \<longrightarrow> (xs @ c # ys) ! j \<noteq> c"
    proof (intro allI impI)
      fix j assume j: "length xs < j \<and> j < length (xs @ c # ys)"
      then have "(xs @ c # ys) ! j = ys ! (j - length xs - 1)"
        by (auto simp: nth_append nth_Cons')
      moreover from j have "j - length xs - 1 < length ys" by auto
      ultimately show "(xs @ c # ys) ! j \<noteq> c"
        using assms by (metis nth_mem)
    qed
  qed
  then show ?thesis by (simp add: rfind_def)
qed

lemma rfind_absent: "c \<notin> set p \<Longrightarrow> rfind p c = - 1"
proof -
  assume "c \<notin> set p"
  then have "\<forall>j < length p. \<not> p ! j = c" by auto
  then have "find (\<lambda>i. p ! i = c) (rev [0..<length p]) = None"
    by (rule find_rev_upt_none)
  then show ?thesis by (simp add: rfind_def)
qed

text \<open>
  A path made of a directory part (empty, or ending in a slash), a file name without
  slash that is not made of dots only, a dot, and letters without dot or slash: the
  extension is the dot with those letters.
\<close>

lemma splitext_shape:
  assumes dir: "dir = [] \<or> last dir = CHR ''/''"
    and name: "CHR ''/'' \<notin> set name" "\<exists>c\<in>set name. c \<noteq> CHR ''.''"
    and e: "CHR ''.'' \<notin> set e" "CHR ''/'' \<notin> set e"
  shows "splitext (dir @ name @ CHR ''.'' # e) = (dir @ name, CHR ''.'' # e)"
proof -
  let ?p = "dir @ name @ CHR ''.'' # e"
  have dot: "rfind ?p (CHR ''.'') = int (length dir + length name)"
    using rfind_last [OF e(1), of "dir @ name"] by simp
  have sep: "rfind ?p (CHR ''/'') + 1 = int (length dir)"
  proof (cases "dir = []")
    case True
    then have "CHR ''/'' \<notin> set ?p" using name(1) e(2) by simp
    then have "rfind ?p (CHR ''/'') = - 1" by (rule rfind_absent)
    with True show ?thesis by simp
  next
    case False
    with dir have l: "last dir = CHR ''/''" by simp
    from False have d: "dir = butlast dir @ [CHR ''/'']"
      using l by (metis append_butlast_last_id)
    have "CHR ''/'' \<notin> set (name @ CHR ''.'' # e)" using name(1) e(2) by simp
    then have "rfind (butlast dir @ CHR ''/'' # (name @ CHR ''.'' # e)) (CHR ''/'')
                 = int (length (butlast dir))"
      by (rule rfind_last)
    moreover have "butlast dir @ CHR ''/'' # (name @ CHR ''.'' # e) = ?p"
      using d by (metis append_Cons append_Nil append_assoc)
    ultimately have "rfind ?p (CHR ''/'') = int (length (butlast dir))" by simp
    with False show ?thesis by (simp add: Suc_pred' of_nat_diff Suc_leI)
  qed
  from name(2) obtain k where k: "k < length name" "name ! k \<noteq> CHR ''.''"
    by (auto simp: in_set_conv_nth)
  have ex: "list_ex (\<lambda>i. ?p ! i \<noteq> CHR ''.'') [length dir..<length dir + length name]"
  proof -
    have "length dir + k \<in> set [length dir..<length dir + length name]" using k(1) by simp
    moreover have "?p ! (length dir + k) = name ! k" using k(1) by (simp add: nth_append)
    ultimately show ?thesis using k(2) unfolding list_ex_iff by metis
  qed
  have gt: "rfind ?p (CHR ''.'') > rfind ?p (CHR ''/'')"
    using dot sep by linarith
  have n1: "nat (rfind ?p (CHR ''/'') + 1) = length dir" using sep by simp
  have n2: "nat (rfind ?p (CHR ''.'')) = length dir + length name" using dot by simp
  show ?thesis
    unfolding splitext_def Let_def n1 n2 using gt ex by simp
qed


lemma lower_char_keeps: "lower_char (CHR ''.'') = CHR ''.''" "lower_char (CHR ''/'') = CHR ''/''"
  by (simp_all add: lower_char_def)

lemma lower_char_dot: "lower_char c = CHR ''.'' \<Longrightarrow> c = CHR ''.''"
proof -
  assume a: "lower_char c = CHR ''.''"
  show ?thesis
  proof (cases "65 \<le> (of_char c :: nat) \<and> (of_char c :: nat) \<le> 90")
    case True
    then have "lower_char c = char_of ((of_char c :: nat) + 32)"
      by (simp add: lower_char_def)
    with a have "(of_char (char_of ((of_char c :: nat) + 32)) :: nat) = of_char (CHR ''.'')"
      by simp
    with True show ?thesis by simp
  next
    case False
    with a show ?thesis by (simp add: lower_char_def)
  qed
qed

lemma lower_wav_shape:
  assumes "lower ext = ''.wav''"
  shows "\<exists>e. ext = CHR ''.'' # e \<and> CHR ''.'' \<notin> set e \<and> CHR ''/'' \<notin> set e"
proof -
  from assms obtain c e where ext: "ext = c # e"
    and c: "lower_char c = CHR ''.''" and e: "map lower_char e = ''wav''"
    by (cases ext) (auto simp: lower_def)
  have "CHR ''.'' \<notin> set e"
  proof
    assume "CHR ''.'' \<in> set e"
    then have "lower_char (CHR ''.'') \<in> set (map lower_char e)" by (simp del: lower_char_keeps)
    with e show False by (simp add: lower_char_keeps)
  qed
  moreover have "CHR ''/'' \<notin> set e"
  proof
    assume "CHR ''/'' \<in> set e"
    then have "lower_char (CHR ''/'') \<in> set (map lower_char e)" by (simp del: lower_char_keeps)
    with e show False by (simp add: lower_char_keeps)
  qed
  ultimately show ?thesis using ext lower_char_dot [OF c] by simp
qed

text \<open>
  \<^bold>\<open>C8.\<close> When the extension of the input path, lower-cased, is \<open>.wav\<close>,
  \<^verbatim>\<open>_decode_to_wav\<close> returns the input path itself with the deletion flag off and leaves
  the world as it is: no temporary file, no decoder call; nor does the rest of the run
  change the world, so the input stays on disk. This covers every path that ends in a
  non-empty file name not made of dots only, followed by \<open>.wav\<close> in any mix of cases.
\<close>

theorem wav_input_used_in_place:
  "(lower (snd (splitext p)) = ''.wav'' \<longrightarrow>
      decode_to_wav w p = (w, Inr (p, False))
      \<and> decode_to_wav_v2 w p = (w, Inr (p, False))
      \<and> fst (analyze w p) = w \<and> fst (analyze_v2 w p) = w
      \<and> fst (main w p) = w \<and> fst (main_v2 w p) = w)
   \<and> ((dir = [] \<or> last dir = CHR ''/'') \<and> CHR ''/'' \<notin> set name
       \<and> (\<exists>c\<in>set name. c \<noteq> CHR ''.'') \<and> lower ext = ''.wav'' \<longrightarrow>
      decode_to_wav w (dir @ name @ ext) = (w, Inr (dir @ name @ ext, False))
      \<and> decode_to_wav_v2 w (dir @ name @ ext) = (w, Inr (dir @ name @ ext, False)))"
proof (intro conjI impI)
  assume a: "lower (snd (splitext p)) = ''.wav''"
  then show "decode_to_wav w p = (w, Inr (p, False))"
    by (simp add: decode_to_wav_def decode_with_wav)
  from a show "decode_to_wav_v2 w p = (w, Inr (p, False))"
    by (simp add: decode_to_wav_v2_def decode_with_wav)
  from a show "fst (analyze w p) = w" by (simp add: analyze_wav)
  from a show "fst (analyze_v2 w p) = w" by (simp add: analyze_v2_wav)
  from a show "fst (main w p) = w"
    by (simp add: main_def analyze_wav split: sum.splits)
  from a show "fst (main_v2 w p) = w"
    by (simp add: main_v2_def analyze_v2_wav split: sum.splits)
next
  assume a: "(dir = [] \<or> last dir = CHR ''/'') \<and> CHR ''/'' \<notin> set name
       \<and> (\<exists>c\<in>set name. c \<noteq> CHR ''.'') \<and> lower ext = ''.wav''"
  then obtain e where e: "ext = CHR ''.'' # e" "CHR ''.'' \<notin> set e" "CHR ''/'' \<notin> set e"
    using lower_wav_shape by blast
  have "splitext (dir @ name @ CHR ''.'' # e) = (dir @ name, CHR ''.'' # e)"
    using a e(2,3) by (intro splitext_shape) simp_all
  with a e(1) have x: "lower (snd (splitext (dir @ name @ ext))) = ''.wav''" by simp
  then show "decode_to_wav w (dir @ name @ ext) = (w, Inr (dir @ name @ ext, False))"
    by (simp add: decode_to_wav_def decode_with_wav)
  from x show "decode_to_wav_v2 w (dir @ name @ ext) = (w, Inr (dir @ name @ ext, False))"
    by (simp add: decode_to_wav_v2_def decode_with_wav)
qed

lemma wav_ext: "lower (snd (splitext ''/music/a.WAV'')) = ''.wav''"
  by code_simp

lemma wav_upper: "lower ''.WAV'' = ''.wav''"
  by code_simp

theorem wav_input_used_in_place_witness:
  "lower (snd (splitext ''/music/a.WAV'')) = ''.wav''
   \<and> decode_to_wav world_ok ''/music/a.WAV'' = (world_ok, Inr (''/music/a.WAV'', False))
   \<and> decode_to_wav_v2 world_ok ''/music/a.WAV'' = (world_ok, Inr (''/music/a.WAV'', False))
   \<and> calls (fst (main world_ok ''/music/a.WAV'')) = []
   \<and> files (fst (main_v2 world_ok ''/music/a.WAV'')) = {''/music/a.WAV'', ''/music/b.mp3''}
   \<and> (''/music/'' = [] \<or> last ''/music/'' = CHR ''/'') \<and> CHR ''/'' \<notin> set ''a''
   \<and> (\<exists>c\<in>set ''a''. c \<noteq> CHR ''.'') \<and> lower ''.WAV'' = ''.wav''
   \<and> decode_to_wav world_decoder_missing (''/music/'' @ ''a'' @ ''.WAV'')
       = (world_decoder_missing, Inr (''/music/a.WAV'', False))"
proof -
  have h2: "(''/music/'' = [] \<or> last ''/music/'' = CHR ''/'') \<and> CHR ''/'' \<notin> set ''a''
     \<and> (\<exists>c\<in>set ''a''. c \<noteq> CHR ''.'') \<and> lower ''.WAV'' = ''.wav''"
    using wav_upper by simp
  have c1: "decode_to_wav world_ok ''/music/a.WAV'' = (world_ok, Inr (''/music/a.WAV'', False))
     \<and> decode_to_wav_v2 world_ok ''/music/a.WAV'' = (world_ok, Inr (''/music/a.WAV'', False))
     \<and> fst (main world_ok ''/music/a.WAV'') = world_ok
     \<and> fst (main_v2 world_ok ''/music/a.WAV'') = world_ok"
    using wav_input_used_in_place [of "''/music/a.WAV''" world_ok] wav_ext by blast
  have c2: "decode_to_wav world_decoder_missing (''/music/'' @ ''a'' @ ''.WAV'')
       = (world_decoder_missing, Inr (''/music/'' @ ''a'' @ ''.WAV'', False))"
    using wav_input_used_in_place [of _ world_decoder_missing "''/music/''" "''a''" "''.WAV''"] h2
    by blast
  have w: "calls world_ok = []" "files world_ok = {''/music/a.WAV'', ''/music/b.mp3''}"
    by (simp_all add: world_ok_def)
  from c1 c2 h2 w wav_ext show ?thesis by simp
qed


subsection \<open>Runs in the example worlds\<close>

lemma np_round1_120: "np_round1 120 = 120"
  by (simp add: np_round1_def rint_def)

lemma example_offset: "grid_offset (Some 120) [1 / 2, 1, 3 / 2, 2] = Inr 0"
  by (simp add: grid_offset_def float_rem_def c_fmod_def trunc_def)

lemma example_stability: "stability [1 / 2, 1, 3 / 2, 2] = Some 1"
  by (simp add: stability_def np_std_def np_mean_def np_clip_def)

lemma example_downbeats: "infer_downbeats_from_beats [1 / 2, 1, 3 / 2, 2] 4 = [1 / 2]"
  by (simp add: infer_downbeats_from_beats_def range_step.simps [of 0]
      range_step.simps [of 4])

lemma example_assemble:
  "assemble (Some 120) [1 / 2, 1, 3 / 2, 2] =
     Inr \<lparr>bpm = Some 120, gridOffsetSec = 0, beatsPerBar = 4,
          beatTimesSec = [1 / 2, 1, 3 / 2, 2], downbeatTimesSec = None,
          confidence = Some 1, analyzer = ''librosa_beat_track_v1''\<rparr>"
  by (simp add: assemble_def np_round1_120 example_offset example_stability)

lemma example_assemble_v2:
  "assemble_v2 (Some 120) [1 / 2, 1, 3 / 2, 2] =
     Inr \<lparr>bpm = Some 120, gridOffsetSec = 0, beatsPerBar = 4,
          beatTimesSec = [1 / 2, 1, 3 / 2, 2], downbeatTimesSec = Some [1 / 2],
          confidence = Some 1, analyzer = ''librosa_v2_beats_downbeats''\<rparr>"
  by (simp add: assemble_v2_def np_round1_120 grid_offset_v2_eq example_offset
      example_stability example_downbeats)

lemma ok_find: "find (\<lambda>q. q \<notin> files world_ok) (tmp_names world_ok) = Some ''/tmp/tmp1.wav''"
  by (simp add: world_ok_def)

lemma ok_wav:
  "snd (analyze world_ok ''/music/a.WAV'') =
     Inr \<lparr>bpm = Some 120, gridOffsetSec = 0, beatsPerBar = 4,
          beatTimesSec = [1 / 2, 1, 3 / 2, 2], downbeatTimesSec = None,
          confidence = Some 1, analyzer = ''librosa_beat_track_v1''\<rparr>"
  by (simp add: analyze_wav [OF wav_ext] example_assemble)
     (simp add: world_ok_def example_track_def example_assemble)

lemma ok_mp3:
  "snd (analyze world_ok ''/music/b.mp3'') =
     Inr \<lparr>bpm = Some 120, gridOffsetSec = 0, beatsPerBar = 4,
          beatTimesSec = [1 / 2, 1, 3 / 2, 2], downbeatTimesSec = None,
          confidence = Some 1, analyzer = ''librosa_beat_track_v1''\<rparr>"
  by (simp add: analyze_run [OF wm_ext ok_find])
     (simp add: world_ok_def example_track_def example_assemble)

lemma ok_wav_v2:
  "snd (analyze_v2 world_ok ''/music/a.WAV'') =
     Inr \<lparr>bpm = Some 120, gridOffsetSec = 0, beatsPerBar = 4,
          beatTimesSec = [1 / 2, 1, 3 / 2, 2], downbeatTimesSec = Some [1 / 2],
          confidence = Some 1, analyzer = ''librosa_v2_beats_downbeats''\<rparr>"
  by (simp add: analyze_v2_wav [OF wav_ext])
     (simp add: world_ok_def example_track_def example_assemble_v2)

lemma ok_mp3_v2:
  "snd (analyze_v2 world_ok ''/music/b.mp3'') =
     Inr \<lparr>bpm = Some 120, gridOffsetSec = 0, beatsPerBar = 4,
          beatTimesSec = [1 / 2, 1, 3 / 2, 2], downbeatTimesSec = Some [1 / 2],
          confidence = Some 1, analyzer = ''librosa_v2_beats_downbeats''\<rparr>"
  by (simp add: analyze_v2_run [OF wm_ext ok_find])
     (simp add: world_ok_def example_track_def example_assemble_v2)

lemma engine_fails_wav:
  "snd (analyze world_engine_fails ''/music/a.WAV'') = Inl (EngineError ''could not read audio'')"
  by (simp add: analyze_wav [OF wav_ext]) (simp add: world_engine_fails_def)

lemma decoder_fails_v2:
  "snd (analyze_v2 world_decoder_fails ''/music/b.mp3'')
     = Inl (RuntimeError ''ffmpeg decode failed: b.mp3: Invalid data found'')"
proof -
  have u: "utf8_ignore ''b.mp3: Invalid data found'' = ''b.mp3: Invalid data found''"
    by code_simp
  show ?thesis
    by (simp add: analyze_v2_run [OF wm_ext wf_find] wf_run u)
qed

theorem main_reports_failure_witness:
  "snd (analyze world_engine_fails ''/music/a.WAV'') = Inl (EngineError ''could not read audio'')
   \<and> snd (main world_engine_fails ''/music/a.WAV'') =
        \<lparr>stdout = [], stderr = [JObj [(''error'', JStr ''could not read audio'')]],
         exit_code = 1\<rparr>
   \<and> snd (analyze_v2 world_decoder_fails ''/music/b.mp3'')
        = Inl (RuntimeError ''ffmpeg decode failed: b.mp3: Invalid data found'')
   \<and> snd (main_v2 world_decoder_fails ''/music/b.mp3'') =
        \<lparr>stdout = [],
         stderr = [JObj [(''error'', JStr ''ffmpeg decode failed: b.mp3: Invalid data found'')]],
         exit_code = 1\<rparr>
   \<and> stdout (snd (main world_ok ''/music/a.WAV'')) \<noteq> []
   \<and> exit_code (snd (main world_ok ''/music/a.WAV'')) = 0
   \<and> stdout (snd (main_v2 world_ok ''/music/b.mp3'')) \<noteq> []
   \<and> exit_code (snd (main_v2 world_ok ''/music/b.mp3'')) = 0"
proof -
  have a: "snd (main world_engine_fails ''/music/a.WAV'') =
        \<lparr>stdout = [], stderr = [JObj [(''error'', JStr ''could not read audio'')]],
         exit_code = 1\<rparr>"
    using main_reports_failure [of world_engine_fails "''/music/a.WAV''"
        "EngineError ''could not read audio''"] engine_fails_wav
    by simp
  have b: "snd (main_v2 world_decoder_fails ''/music/b.mp3'') =
        \<lparr>stdout = [],
         stderr = [JObj [(''error'', JStr ''ffmpeg decode failed: b.mp3: Invalid data found'')]],
         exit_code = 1\<rparr>"
    using main_reports_failure [of world_decoder_fails "''/music/b.mp3''"
        "RuntimeError ''ffmpeg decode failed: b.mp3: Invalid data found''"] decoder_fails_v2
    by simp
  have c: "stdout (snd (main world_ok ''/music/a.WAV'')) \<noteq> []"
    using ok_wav by (auto simp: main_def split: prod.splits sum.splits)
  have d: "stdout (snd (main_v2 world_ok ''/music/b.mp3'')) \<noteq> []"
    using ok_mp3_v2 by (auto simp: main_v2_def split: prod.splits sum.splits)
  from c have c': "exit_code (snd (main world_ok ''/music/a.WAV'')) = 0"
    using main_reports_failure [of world_ok "''/music/a.WAV''" "OSError []"] by auto
  from d have d': "exit_code (snd (main_v2 world_ok ''/music/b.mp3'')) = 0"
    using main_reports_failure [of world_ok "''/music/b.mp3''" "OSError []"] by auto
  from a b c d c' d' engine_fails_wav decoder_fails_v2 show ?thesis by simp
qed

theorem derived_fields_pure_witness:
  "snd (analyze world_ok ''/music/a.WAV'') =
     Inr \<lparr>bpm = Some 120, gridOffsetSec = 0, beatsPerBar = 4,
          beatTimesSec = [1 / 2, 1, 3 / 2, 2], downbeatTimesSec = None,
          confidence = Some 1, analyzer = ''librosa_beat_track_v1''\<rparr>
   \<and> snd (analyze world_ok ''/music/b.mp3'') = snd (analyze world_ok ''/music/a.WAV'')
   \<and> snd (analyze_v2 world_ok ''/music/a.WAV'') =
     Inr \<lparr>bpm = Some 120, gridOffsetSec = 0, beatsPerBar = 4,
          beatTimesSec = [1 / 2, 1, 3 / 2, 2], downbeatTimesSec = Some [1 / 2],
          confidence = Some 1, analyzer = ''librosa_v2_beats_downbeats''\<rparr>
   \<and> snd (analyze_v2 world_ok ''/music/b.mp3'') = snd (analyze_v2 world_ok ''/music/a.WAV'')
   \<and> grid_offset (Some 120) [1 / 2, 1, 3 / 2, 2] = Inr 0
   \<and> stability [1 / 2, 1, 3 / 2, 2] = Some 1
   \<and> infer_downbeats_from_beats [1 / 2, 1, 3 / 2, 2] 4 = [1 / 2]"
proof -
  let ?g = "\<lparr>bpm = Some 120, gridOffsetSec = 0, beatsPerBar = 4,
          beatTimesSec = [1 / 2, 1, 3 / 2, 2], downbeatTimesSec = None,
          confidence = Some 1, analyzer = ''librosa_beat_track_v1''\<rparr>"
  let ?h = "\<lparr>bpm = Some 120, gridOffsetSec = 0, beatsPerBar = 4,
          beatTimesSec = [1 / 2, 1, 3 / 2, 2], downbeatTimesSec = Some [1 / 2],
          confidence = Some 1, analyzer = ''librosa_v2_beats_downbeats''\<rparr>"
  note t = derived_fields_pure [of world_ok "''/music/a.WAV''" ?g world_ok "''/music/b.mp3''" ?g
      ?h ?h]
  from t ok_wav have "grid_offset (Some 120) [1 / 2, 1, 3 / 2, 2] = Inr 0
      \<and> stability [1 / 2, 1, 3 / 2, 2] = Some 1"
    by simp
  moreover from t ok_wav_v2 have "infer_downbeats_from_beats [1 / 2, 1, 3 / 2, 2] 4 = [1 / 2]"
    by simp
  ultimately show ?thesis
    using ok_wav ok_mp3 ok_wav_v2 ok_mp3_v2 by simp
qed

theorem zero_tempo_kept_witness:
  "assemble (Some 0) [1 / 2, 1] =
     Inr \<lparr>bpm = Some 0, gridOffsetSec = 0, beatsPerBar = 4, beatTimesSec = [1 / 2, 1],
          downbeatTimesSec = None, confidence = None, analyzer = ''librosa_beat_track_v1''\<rparr>
   \<and> assemble_v2 None [1 / 2, 1] =
     Inr \<lparr>bpm = None, gridOffsetSec = 0, beatsPerBar = 4, beatTimesSec = [1 / 2, 1],
          downbeatTimesSec = Some [1 / 2], confidence = None,
          analyzer = ''librosa_v2_beats_downbeats''\<rparr>
   \<and> json_opt (Some 0) = JNum 0 \<and> json_opt None = JNull"
proof -
  have d: "infer_downbeats_from_beats [1 / 2, 1] 4 = [1 / 2]"
    by (simp add: infer_downbeats_from_beats_def range_step.simps [of 0]
        range_step.simps [of 4])
  have a: "assemble (Some 0) [1 / 2, 1] =
     Inr \<lparr>bpm = Some 0, gridOffsetSec = 0, beatsPerBar = 4, beatTimesSec = [1 / 2, 1],
          downbeatTimesSec = None, confidence = None, analyzer = ''librosa_beat_track_v1''\<rparr>"
    by (simp add: assemble_def np_round1_0 grid_offset_def stability_def)
  have b: "assemble_v2 None [1 / 2, 1] =
     Inr \<lparr>bpm = None, gridOffsetSec = 0, beatsPerBar = 4, beatTimesSec = [1 / 2, 1],
          downbeatTimesSec = Some [1 / 2], confidence = None,
          analyzer = ''librosa_v2_beats_downbeats''\<rparr>"
    by (simp add: assemble_v2_def grid_offset_v2_def stability_def d)
  have "bpm \<lparr>bpm = Some (0::real), gridOffsetSec = 0, beatsPerBar = 4,
          beatTimesSec = [1 / 2, 1], downbeatTimesSec = None, confidence = None,
          analyzer = ''librosa_beat_track_v1''\<rparr> \<noteq> None"
    using a zero_tempo_kept [where bts = "[1 / 2, 1]" and tempo = "Some 0"] by blast
  moreover have "bpm \<lparr>bpm = (None::real option), gridOffsetSec = 0, beatsPerBar = 4,
          beatTimesSec = [1 / 2, 1], downbeatTimesSec = Some [1 / 2], confidence = None,
          analyzer = ''librosa_v2_beats_downbeats''\<rparr> = None"
    using b zero_tempo_kept [where bts = "[1 / 2, 1]" and tempo = None] by blast
  ultimately show ?thesis using a b by (simp add: json_opt_def)
qed

end
